theory Spec2Isabelle
  imports Complex_Main "HOL-Library.Multiset" "HOL-Library.Sublist"
begin

section \<open>The Nightscout glucose script (streamlit\_app.py) as HOL functions\<close>

text \<open>
  The script fetches a JSON list of entries, loads it into a pandas DataFrame, sorts it by
  time, groups it by calendar date, derives two smoothed difference signals per day and
  prints four statistics. The HTTP transport, the widgets and the plotting backend are not
  modelled: the model starts at \<^verbatim>\<open>entries = response.json()\<close> (line 110) and
  records what is handed to streamlit and matplotlib as a list of events.

  Numbers: pandas computes on 64-bit floats. The model computes on \<^typ>\<open>real\<close>, so it
  states which positions are defined and the exact value that the floating-point result
  approximates. An undefined position (NaN, NaT) is \<^const>\<open>None\<close>.
\<close>

subsection \<open>Data\<close>

text \<open>One JSON object of the response. A field is \<^const>\<open>None\<close> when the object has no such key.\<close>

record entry =
  date :: "int option"
  sgv :: "int option"

text \<open>
  A row of the DataFrame \<^verbatim>\<open>df\<close>: the two fetched fields and the column \<^verbatim>\<open>dateTime\<close>
  added on line 120 (milliseconds since the epoch; \<^const>\<open>None\<close> is NaT). Line 129 overwrites
  the column \<^verbatim>\<open>date\<close> with \<^verbatim>\<open>datetime.date\<close> objects; a date is held as its day number
  (days since 1970-01-01), which orders dates as Python does.
\<close>

record row = entry +
  dateTime :: "int option"

record dataframe =
  columns :: "string list"
  rows :: "row list"

text \<open>A day's \<^verbatim>\<open>group\<close>: a DataFrame to which the loop body adds four columns.\<close>

record frame = dataframe +
  sgv_diff :: "real option list option"
  sgv_diff_smooth :: "real option list option"
  sgv_diff2 :: "real option list option"
  sgv_diff2_smooth :: "real option list option"

datatype py_error = KeyError string | OutOfBoundsDatetime

datatype chart = Glucose | FirstDerivative | SecondDerivative

text \<open>
  What the script shows: \<^verbatim>\<open>st.warning\<close>, \<^verbatim>\<open>st.error\<close>, \<^verbatim>\<open>st.subheader\<close> of a day's chart,
  \<^verbatim>\<open>ax.plot\<close> with its x and y columns, and the statistics block. \<open>Statistics\<close> holds the
  four numbers that lines 175 to 178 put into their f-strings: minimum, maximum, mean and
  standard deviation, as exact reals. The script holds the mean and the standard deviation
  as float64 numbers close to these, and prints them with \<^verbatim>\<open>:.2f\<close> (see \<open>fmt2\<close>).
\<close>

datatype event =
    Warning string
  | Error py_error
  | Subheader chart int
  | Plot chart int "int option list" "real option list"
  | Statistics "real option" "real option" "real option" "real option"

subsection \<open>pandas operations\<close>

text \<open>\<^verbatim>\<open>pd.DataFrame(entries)\<close>: one row per entry, in order; a column exists when some
  entry has the key, and an entry without the key gets NaN there.\<close>

definition DataFrame :: "entry list \<Rightarrow> dataframe" where
  "DataFrame entries =
     \<lparr>columns = (if list_ex (\<lambda>e. date e \<noteq> None) entries then [''date''] else []) @
                (if list_ex (\<lambda>e. sgv e \<noteq> None) entries then [''sgv''] else []),
      rows = map (\<lambda>e. \<lparr>date = date e, sgv = sgv e, dateTime = None\<rparr>) entries\<rparr>"

text \<open>\<^verbatim>\<open>df[name]\<close> raises KeyError when the frame has no such column.\<close>

definition getitem :: "('a dataframe_scheme) \<Rightarrow> string \<Rightarrow> (row \<Rightarrow> 'b) \<Rightarrow> py_error + 'b list" where
  "getitem df name field =
     (if name \<in> set (columns df) then Inr (map field (rows df)) else Inl (KeyError name))"

definition sgv_value :: "row \<Rightarrow> real option" where
  "sgv_value r = map_option real_of_int (sgv r)"

text \<open>\<^verbatim>\<open>pd.to_datetime(col, unit='ms')\<close>: NaN becomes NaT; an instant outside the range of a
  64-bit nanosecond timestamp raises.\<close>

definition in_bounds :: "int \<Rightarrow> bool" where
  "in_bounds ms = (- 9223372036854 \<le> ms \<and> ms \<le> 9223372036854)"

definition to_datetime :: "int option list \<Rightarrow> py_error + int option list" where
  "to_datetime col =
     (if list_all (\<lambda>c. case c of None \<Rightarrow> True | Some ms \<Rightarrow> in_bounds ms) col
      then Inr col else Inl OutOfBoundsDatetime)"

definition set_dateTime :: "dataframe \<Rightarrow> int option list \<Rightarrow> dataframe" where
  "set_dateTime df col =
     df\<lparr>columns := columns df @ [''dateTime''],
        rows := map (\<lambda>(r, t). r\<lparr>dateTime := t\<rparr>) (zip (rows df) col)\<rparr>"

text \<open>
  \<^verbatim>\<open>df.sort_values('dateTime')\<close> is called with the default \<^verbatim>\<open>kind='quicksort'\<close>, whose
  algorithm lives in numpy. pandas promises that the rows are permuted into ascending
  order of the column with NaT last, and says that only \<^verbatim>\<open>mergesort\<close> and \<^verbatim>\<open>stable\<close> are
  stable. The sorting function is therefore a parameter \<open>srt\<close> of the model, and
  \<open>sorts_by_dateTime\<close> is what pandas promises of it.
\<close>

fun dateTime_le :: "int option \<Rightarrow> int option \<Rightarrow> bool" where
  "dateTime_le (Some a) (Some b) = (a \<le> b)"
| "dateTime_le None (Some b) = False"
| "dateTime_le a None = True"

definition ascending :: "row list \<Rightarrow> bool" where
  "ascending rs = sorted_wrt (\<lambda>a b. dateTime_le (dateTime a) (dateTime b)) rs"

definition sorts_by_dateTime :: "(row list \<Rightarrow> row list) \<Rightarrow> bool" where
  "sorts_by_dateTime srt = (\<forall>rs. mset (srt rs) = mset rs \<and> ascending (srt rs))"

definition sort_values :: "(row list \<Rightarrow> row list) \<Rightarrow> dataframe \<Rightarrow> dataframe" where
  "sort_values srt df = df\<lparr>rows := srt (rows df)\<rparr>"

text \<open>\<^verbatim>\<open>df['dateTime'].dt.date\<close>: the calendar date of the naive (UTC) timestamp.\<close>

definition dt_date :: "int \<Rightarrow> int" where
  "dt_date ms = ms div 86400000"

definition set_date :: "dataframe \<Rightarrow> dataframe" where
  "set_date df = df\<lparr>rows := map (\<lambda>r. r\<lparr>date := map_option dt_date (dateTime r)\<rparr>) (rows df)\<rparr>"

text \<open>\<^verbatim>\<open>df.groupby('date')\<close>, iterated: the distinct keys in ascending order (rows whose
  key is missing are dropped), each with the rows of that key in the order of \<^verbatim>\<open>df\<close>.\<close>

definition group_keys :: "row list \<Rightarrow> int list" where
  "group_keys rs = sort (remdups (List.map_filter date rs))"

definition groupby :: "dataframe \<Rightarrow> (int \<times> frame) list" where
  "groupby df =
     map (\<lambda>k. (k, \<lparr>columns = columns df, rows = filter (\<lambda>r. date r = Some k) (rows df),
                   sgv_diff = None, sgv_diff_smooth = None,
                   sgv_diff2 = None, sgv_diff2_smooth = None\<rparr>))
         (group_keys (rows df))"

text \<open>\<^verbatim>\<open>Series.diff()\<close>: each value minus the one before it; NaN at the first position and
  wherever an operand is NaN.\<close>

fun sub :: "real option \<Rightarrow> real option \<Rightarrow> real option" where
  "sub (Some a) (Some b) = Some (a - b)"
| "sub a b = None"

definition diff :: "real option list \<Rightarrow> real option list" where
  "diff col = map (\<lambda>(x, p). sub x p) (zip col (None # col))"

text \<open>\<^verbatim>\<open>Series.rolling(window=w).mean()\<close>: at position \<open>i\<close> the window holds the \<open>w\<close> values
  ending at \<open>i\<close> (fewer near the start); with \<^verbatim>\<open>min_periods\<close> at its default \<open>w\<close>, the result
  is the mean of the window's values when it has \<open>w\<close> values that are not NaN, else NaN.\<close>

definition dropna :: "'a option list \<Rightarrow> 'a list" where
  "dropna col = List.map_filter (\<lambda>c. c) col"

definition window :: "nat \<Rightarrow> 'a list \<Rightarrow> nat \<Rightarrow> 'a list" where
  "window w col i = drop (Suc i - w) (take (Suc i) col)"

definition window_mean :: "nat \<Rightarrow> real option list \<Rightarrow> real option" where
  "window_mean w win =
     (let obs = dropna win
      in if length obs < w then None else Some (sum_list obs / real (length obs)))"

definition rolling_mean :: "nat \<Rightarrow> real option list \<Rightarrow> real option list" where
  "rolling_mean w col = map (\<lambda>i. window_mean w (window w col i)) [0..<length col]"

text \<open>\<^verbatim>\<open>Series.min()\<close>, \<^verbatim>\<open>max()\<close>, \<^verbatim>\<open>mean()\<close> and \<^verbatim>\<open>std()\<close> skip NaN; \<^verbatim>\<open>std\<close> divides by
  \<open>n - 1\<close> and is NaN for fewer than two values.\<close>

definition series_min :: "real option list \<Rightarrow> real option" where
  "series_min col = (case dropna col of [] \<Rightarrow> None | x # xs \<Rightarrow> Some (fold min xs x))"

definition series_max :: "real option list \<Rightarrow> real option" where
  "series_max col = (case dropna col of [] \<Rightarrow> None | x # xs \<Rightarrow> Some (fold max xs x))"

definition series_mean :: "real option list \<Rightarrow> real option" where
  "series_mean col =
     (let obs = dropna col
      in if obs = [] then None else Some (sum_list obs / real (length obs)))"

definition series_std :: "real option list \<Rightarrow> real option" where
  "series_std col =
     (let obs = dropna col; n = length obs; m = sum_list obs / real n
      in if n < 2 then None
         else Some (sqrt (sum_list (map (\<lambda>x. (x - m)\<^sup>2) obs) / real (n - 1))))"

text \<open>The format \<^verbatim>\<open>:.2f\<close> of a number \<open>x\<close> held by a float64: the multiple of 0.01 nearest to
  \<open>x\<close>, a tie going to the even one, as a number of hundredths. The script applies it to
  its float64 mean and standard deviation, which are near the exact values but need not
  equal them. So \<open>statistics\<close> keeps the exact values unformatted, and a printed value is
  stated only where it is the same for every number near the exact one.\<close>

definition fmt2 :: "real \<Rightarrow> int" where
  "fmt2 x =
     (let y = x * 100; f = \<lfloor>y\<rfloor>
      in if y - of_int f < 1 / 2 then f
         else if 1 / 2 < y - of_int f then f + 1
         else if even f then f else f + 1)"

subsection \<open>The script\<close>

text \<open>Lines 144 to 147: the first derivative and its rolling mean, stored in the group.\<close>

definition first_derivative :: "frame \<Rightarrow> py_error + frame" where
  "first_derivative grp =
     (case getitem grp ''sgv'' sgv_value of
        Inl e \<Rightarrow> Inl e
      | Inr v \<Rightarrow>
          (let grp = grp\<lparr>sgv_diff := Some (diff v)\<rparr>
           in case sgv_diff grp of
                None \<Rightarrow> Inl (KeyError ''sgv_diff'')
              | Some d \<Rightarrow> Inr (grp\<lparr>sgv_diff_smooth := Some (rolling_mean 4 d)\<rparr>)))"

text \<open>Lines 160 to 162: the second derivative and its rolling mean.\<close>

definition second_derivative :: "frame \<Rightarrow> py_error + frame" where
  "second_derivative grp =
     (case sgv_diff_smooth grp of
        None \<Rightarrow> Inl (KeyError ''sgv_diff_smooth'')
      | Some s \<Rightarrow>
          (let grp = grp\<lparr>sgv_diff2 := Some (diff s)\<rparr>
           in case sgv_diff2 grp of
                None \<Rightarrow> Inl (KeyError ''sgv_diff2'')
              | Some d \<Rightarrow> Inr (grp\<lparr>sgv_diff2_smooth := Some (rolling_mean 4 d)\<rparr>)))"

text \<open>The body of the loop over the groups (lines 133 to 171), for the day \<open>d\<close>: the
  events shown, and the group as the body leaves it or the exception that ends the body.\<close>

definition day_body :: "int \<Rightarrow> frame \<Rightarrow> event list \<times> (py_error + frame)" where
  "day_body d grp =
     (let t = map dateTime (rows grp); ev0 = [Subheader Glucose d]
      in case getitem grp ''sgv'' sgv_value of
           Inl e \<Rightarrow> (ev0, Inl e)
         | Inr v \<Rightarrow>
          (let ev1 = ev0 @ [Plot Glucose d t v]
           in case first_derivative grp of
                Inl e \<Rightarrow> (ev1, Inl e)
              | Inr grp \<Rightarrow>
               (let ev2 = ev1 @ [Subheader FirstDerivative d]
                in case sgv_diff_smooth grp of
                     None \<Rightarrow> (ev2, Inl (KeyError ''sgv_diff_smooth''))
                   | Some s \<Rightarrow>
                    (let ev3 = ev2 @ [Plot FirstDerivative d t s]
                     in case second_derivative grp of
                          Inl e \<Rightarrow> (ev3, Inl e)
                        | Inr grp \<Rightarrow>
                         (let ev4 = ev3 @ [Subheader SecondDerivative d]
                          in case sgv_diff2_smooth grp of
                               None \<Rightarrow> (ev4, Inl (KeyError ''sgv_diff2_smooth''))
                             | Some s2 \<Rightarrow>
                                 (ev4 @ [Plot SecondDerivative d t s2], Inr grp))))))"

text \<open>The loop \<^verbatim>\<open>for date, group in grouped\<close>: an exception in one body ends the loop.\<close>

fun for_groups :: "(int \<times> frame) list \<Rightarrow> event list \<times> py_error option" where
  "for_groups [] = ([], None)"
| "for_groups ((d, grp) # gs) =
     (case day_body d grp of
        (evs, Inl e) \<Rightarrow> (evs, Some e)
      | (evs, Inr grp') \<Rightarrow> (case for_groups gs of (evs', r) \<Rightarrow> (evs @ evs', r)))"

text \<open>Lines 174 to 178.\<close>

definition statistics :: "dataframe \<Rightarrow> py_error + event" where
  "statistics df =
     (case getitem df ''sgv'' sgv_value of
        Inl e \<Rightarrow> Inl e
      | Inr v \<Rightarrow>
          Inr (Statistics (series_min v) (series_max v) (series_mean v) (series_std v)))"

text \<open>Lines 117 to 129: the DataFrame as it is when it is grouped.\<close>

definition prepare :: "(row list \<Rightarrow> row list) \<Rightarrow> entry list \<Rightarrow> py_error + dataframe" where
  "prepare srt entries =
     (let df = DataFrame entries
      in case getitem df ''date'' date of
           Inl e \<Rightarrow> Inl e
         | Inr col \<Rightarrow>
            (case to_datetime col of
               Inl e \<Rightarrow> Inl e
             | Inr t \<Rightarrow> Inr (set_date (sort_values srt (set_dateTime df t)))))"

text \<open>The variable \<^verbatim>\<open>grouped\<close> of line 130.\<close>

definition grouped :: "(row list \<Rightarrow> row list) \<Rightarrow> entry list \<Rightarrow> py_error + (int \<times> frame) list" where
  "grouped srt entries = (case prepare srt entries of Inl e \<Rightarrow> Inl e | Inr df \<Rightarrow> Inr (groupby df))"

text \<open>Lines 110 to 183: everything after the response has been parsed. The handler
  \<^verbatim>\<open>except Exception\<close> turns an exception into one \<^verbatim>\<open>st.error\<close>.\<close>

definition main :: "(row list \<Rightarrow> row list) \<Rightarrow> entry list \<Rightarrow> event list" where
  "main srt entries =
     (if entries = []
      then [Warning ''No glucose entries found for the selected date range.'']
      else case prepare srt entries of
             Inl e \<Rightarrow> [Error e]
           | Inr df \<Rightarrow>
              (case for_groups (groupby df) of
                 (evs, Some e) \<Rightarrow> evs @ [Error e]
               | (evs, None) \<Rightarrow>
                  (case statistics df of
                     Inl e \<Rightarrow> evs @ [Error e]
                   | Inr s \<Rightarrow> evs @ [s])))"

subsection \<open>Reading the events\<close>

fun is_plot :: "event \<Rightarrow> bool" where
  "is_plot (Plot c d t v) = True"
| "is_plot e = False"

fun is_statistics :: "event \<Rightarrow> bool" where
  "is_statistics (Statistics a b c d) = True"
| "is_statistics e = False"

fun is_error :: "event \<Rightarrow> bool" where
  "is_error (Error e) = True"
| "is_error e = False"

fun is_subheader :: "event \<Rightarrow> bool" where
  "is_subheader (Subheader c d) = True"
| "is_subheader e = False"


subsection \<open>Rows and readings\<close>

text \<open>The row that an entry has become after line 120: its instant is also in \<^verbatim>\<open>dateTime\<close>.\<close>

definition fetched :: "entry \<Rightarrow> row" where
  "fetched e = \<lparr>date = date e, sgv = sgv e, dateTime = date e\<rparr>"

text \<open>The fetched reading that a row of the sorted DataFrame stands for: its instant is in
  \<^verbatim>\<open>dateTime\<close>, since \<^verbatim>\<open>date\<close> has been overwritten.\<close>

definition reading :: "row \<Rightarrow> entry" where
  "reading r = \<lparr>date = dateTime r, sgv = sgv r\<rparr>"

subsection \<open>A sorting function that meets the promise of \<^verbatim>\<open>sort_values\<close>\<close>

text \<open>
  Insertion sort, placing each row in front of the first row that \<open>p\<close> says it goes before.
  \<open>stable_sort\<close> places a row in front of the first row that is not earlier, so rows with
  equal instants keep their order (what \<^verbatim>\<open>kind='stable'\<close> asks for). It serves as the
  sorting function of the examples.
\<close>

fun place :: "(row \<Rightarrow> row \<Rightarrow> bool) \<Rightarrow> row \<Rightarrow> row list \<Rightarrow> row list" where
  "place p x [] = [x]"
| "place p x (y # ys) = (if p x y then x # y # ys else y # place p x ys)"

definition stable_sort :: "row list \<Rightarrow> row list" where
  "stable_sort rs = foldr (place (\<lambda>x y. dateTime_le (dateTime x) (dateTime y))) rs []"

subsection \<open>Notions of the specification\<close>



text \<open>The specification's moving average of window 4 at one position: the mean of four
  consecutive values, undefined as soon as one of them is.\<close>

fun average4 :: "real option \<Rightarrow> real option \<Rightarrow> real option \<Rightarrow> real option \<Rightarrow> real option" where
  "average4 (Some a) (Some b) (Some c) (Some e) = Some ((a + b + c + e) / 4)"
| "average4 a b c e = None"

text \<open>The specification's statistics: the glucose values of the whole fetched Series,
  their arithmetic mean and their sample standard deviation.\<close>

definition glucose_values :: "entry list \<Rightarrow> real list" where
  "glucose_values entries = dropna (map (\<lambda>e. map_option real_of_int (sgv e)) entries)"

definition mean :: "real list \<Rightarrow> real" where
  "mean xs = sum_list xs / real (length xs)"

definition sample_std :: "real list \<Rightarrow> real" where
  "sample_std xs = sqrt (sum_list (map (\<lambda>x. (x - mean xs)\<^sup>2) xs) / real (length xs - 1))"

subsection \<open>An example day\<close>

text \<open>An example day: a group whose readings, five minutes apart from midnight of
  1970-01-01, have the given glucose values.\<close>

definition day_of :: "int list \<Rightarrow> frame" where
  "day_of vs =
     \<lparr>columns = [''date'', ''sgv'', ''dateTime''],
      rows = map (\<lambda>(i, v). \<lparr>date = Some 0, sgv = Some v, dateTime = Some (300000 * int i)\<rparr>)
               (enumerate 0 vs),
      sgv_diff = None, sgv_diff_smooth = None, sgv_diff2 = None, sgv_diff2_smooth = None\<rparr>"

section \<open>Properties\<close>

subsection \<open>Sorting\<close>

lemma dateTime_le_total: "dateTime_le a b \<or> dateTime_le b a"
  by (cases a; cases b) auto

lemma dateTime_le_trans: "dateTime_le a b \<Longrightarrow> dateTime_le b c \<Longrightarrow> dateTime_le a c"
  by (cases a; cases b; cases c) auto

lemma mset_place: "mset (place p x ys) = add_mset x (mset ys)"
  by (induction ys) auto

lemma set_place: "set (place p x ys) = insert x (set ys)"
  by (induction ys) auto

lemma ascending_place:
  assumes "\<And>x y. p x y \<Longrightarrow> dateTime_le (dateTime x) (dateTime y)"
    and "\<And>x y. \<not> p x y \<Longrightarrow> dateTime_le (dateTime y) (dateTime x)"
  shows "ascending ys \<Longrightarrow> ascending (place p x ys)"
proof (induction ys)
  case Nil
  then show ?case by (simp add: ascending_def)
next
  case (Cons y ys)
  show ?case
  proof (cases "p x y")
    case True
    have "dateTime_le (dateTime x) (dateTime z)" if "z \<in> set ys" for z
      using Cons.prems that assms(1)[OF True]
      by (auto simp: ascending_def intro: dateTime_le_trans)
    with True Cons.prems assms(1)[OF True] show ?thesis
      by (auto simp: ascending_def)
  next
    case False
    with Cons assms(2)[OF False] show ?thesis
      by (auto simp: ascending_def set_place)
  qed
qed

lemma mset_foldr_place: "mset (foldr (place p) rs []) = mset rs"
  by (induction rs) (auto simp: mset_place)

lemma ascending_foldr_place:
  assumes "\<And>x y. p x y \<Longrightarrow> dateTime_le (dateTime x) (dateTime y)"
    and "\<And>x y. \<not> p x y \<Longrightarrow> dateTime_le (dateTime y) (dateTime x)"
  shows "ascending (foldr (place p) rs [])"
proof (induction rs)
  case Nil
  show ?case by (simp add: ascending_def)
next
  case (Cons r rs)
  then show ?case using ascending_place[of p, OF assms] by simp
qed

lemma sorts_stable_sort: "sorts_by_dateTime stable_sort"
  unfolding sorts_by_dateTime_def stable_sort_def
  using dateTime_le_total by (auto simp: mset_foldr_place intro!: ascending_foldr_place)

subsection \<open>Loading and grouping\<close>

lemma zip_columns:
  "map (\<lambda>(r, t). r\<lparr>dateTime := t\<rparr>) (zip (map g es) (map h es)) =
   map (\<lambda>e. (g e)\<lparr>dateTime := h e\<rparr>) es"
  by (induction es) auto

lemma set_dateTime_DataFrame:
  "rows (set_dateTime (DataFrame entries) (map date (rows (DataFrame entries)))) = map fetched entries"
  using zip_columns[of "\<lambda>e. \<lparr>date = date e, sgv = sgv e, dateTime = None\<rparr>" entries date]
  by (simp add: set_dateTime_def DataFrame_def fetched_def o_def)

lemma prepare_Inr:
  "prepare srt entries = Inr df \<longleftrightarrow>
     list_ex (\<lambda>e. date e \<noteq> None) entries \<and>
     list_all (\<lambda>e. case date e of None \<Rightarrow> True | Some ms \<Rightarrow> in_bounds ms) entries \<and>
     df = \<lparr>columns = columns (DataFrame entries) @ [''dateTime''],
           rows = map (\<lambda>r. r\<lparr>date := map_option dt_date (dateTime r)\<rparr>) (srt (map fetched entries))\<rparr>"
proof -
  have 1: "getitem (DataFrame entries) ''date'' date =
     (if list_ex (\<lambda>e. date e \<noteq> None) entries then Inr (map date (rows (DataFrame entries))) else Inl (KeyError ''date''))"
    by (simp add: getitem_def DataFrame_def)
  have 2: "list_all (\<lambda>c. case c of None \<Rightarrow> True | Some ms \<Rightarrow> in_bounds ms) (map date (rows (DataFrame entries)))
     = list_all (\<lambda>e. case date e of None \<Rightarrow> True | Some ms \<Rightarrow> in_bounds ms) entries"
    by (simp add: DataFrame_def list_all_iff)
  have 3: "set_date (sort_values srt (set_dateTime (DataFrame entries) (map date (rows (DataFrame entries))))) =
     \<lparr>columns = columns (DataFrame entries) @ [''dateTime''],
           rows = map (\<lambda>r. r\<lparr>date := map_option dt_date (dateTime r)\<rparr>) (srt (map fetched entries))\<rparr>"
    using set_dateTime_DataFrame[of entries]
    by (simp add: set_date_def sort_values_def set_dateTime_def)
  show ?thesis
    unfolding prepare_def Let_def 1 to_datetime_def
    using 2 by (auto simp: 3)
qed

lemma set_map_filter_eq: "set (List.map_filter f xs) = {y. \<exists>x\<in>set xs. f x = Some y}"
  by (induction xs) (auto split: option.splits)

lemma set_group_keys: "set (group_keys rs) = {k. \<exists>r\<in>set rs. date r = Some k}"
  by (simp add: group_keys_def set_map_filter_eq)

lemma strict_group_keys: "sorted_wrt (<) (group_keys rs)"
  by (simp add: group_keys_def strict_sorted_iff)

lemma keys_groupby: "map fst (groupby df) = group_keys (rows df)"
  by (simp add: groupby_def o_def)

lemma rows_groupby:
  "map (\<lambda>(k, g). rows g) (groupby df) =
   map (\<lambda>k. filter (\<lambda>r. date r = Some k) (rows df)) (group_keys (rows df))"
  by (simp add: groupby_def o_def)

lemma mset_concat_filters:
  "distinct ks \<Longrightarrow>
   mset (concat (map (\<lambda>k. filter (\<lambda>r. f r = Some k) rs) ks)) =
   mset (filter (\<lambda>r. \<exists>k\<in>set ks. f r = Some k) rs)"
proof (induction ks)
  case Nil
  then show ?case by simp
next
  case (Cons k ks)
  have "filter_mset (\<lambda>r. f r = Some k) (mset rs) + filter_mset (\<lambda>r. \<exists>k\<in>set ks. f r = Some k) (mset rs)
      = filter_mset (\<lambda>r. f r = Some k \<or> (\<exists>k\<in>set ks. f r = Some k)) (mset rs)"
    using Cons.prems by (intro multiset_eqI) auto
  with Cons show ?case by simp
qed

lemma mset_groupby:
  "mset (concat (map (\<lambda>(k, g). rows g) (groupby df))) = mset (filter (\<lambda>r. date r \<noteq> None) (rows df))"
proof -
  have d: "distinct (group_keys (rows df))"
    using strict_group_keys strict_sorted_iff by blast
  have "(\<exists>k\<in>set (group_keys (rows df)). date r = Some k) \<longleftrightarrow> date r \<noteq> None" if "r \<in> set (rows df)" for r
    using that by (auto simp: set_group_keys)
  then have "filter (\<lambda>r. \<exists>k\<in>set (group_keys (rows df)). date r = Some k) (rows df) =
             filter (\<lambda>r. date r \<noteq> None) (rows df)"
    by (intro filter_cong) auto
  with mset_concat_filters[OF d, of date "rows df"] show ?thesis
    by (simp add: rows_groupby)
qed


lemma reading_fetched: "reading (fetched e) = e"
  by (cases e) (simp add: reading_def fetched_def)

lemma date_prepared:
  assumes "prepare srt entries = Inr df" and "r \<in> set (rows df)"
  shows "date r = map_option dt_date (dateTime r)"
  using assms by (auto simp: prepare_Inr)

lemma mset_prepared:
  assumes "prepare srt entries = Inr df" and "sorts_by_dateTime srt"
  shows "mset (map reading (rows df)) = mset entries"
proof -
  have rows: "rows df = map (\<lambda>r. r\<lparr>date := map_option dt_date (dateTime r)\<rparr>) (srt (map fetched entries))"
    using assms(1) by (simp add: prepare_Inr)
  have "map reading (rows df) = map reading (srt (map fetched entries))"
    by (simp add: rows reading_def o_def)
  also have "mset \<dots> = image_mset reading (mset (srt (map fetched entries)))"
    by simp
  also have "\<dots> = image_mset reading (mset (map fetched entries))"
    using assms(2) by (simp add: sorts_by_dateTime_def)
  also have "\<dots> = mset entries"
    by (simp add: multiset.map_comp o_def reading_fetched)
  finally show ?thesis .
qed

lemma ascending_prepared:
  assumes "prepare srt entries = Inr df" and "sorts_by_dateTime srt"
  shows "ascending (rows df)"
proof -
  have rows: "rows df = map (\<lambda>r. r\<lparr>date := map_option dt_date (dateTime r)\<rparr>) (srt (map fetched entries))"
    using assms(1) by (simp add: prepare_Inr)
  have "ascending (srt (map fetched entries))"
    using assms(2) by (simp add: sorts_by_dateTime_def)
  then show ?thesis
    by (simp add: rows ascending_def sorted_wrt_map)
qed

lemma in_groupby:
  "(k, g) \<in> set (groupby df) \<longleftrightarrow>
     k \<in> set (group_keys (rows df)) \<and>
     g = \<lparr>columns = columns df, rows = filter (\<lambda>r. date r = Some k) (rows df),
          sgv_diff = None, sgv_diff_smooth = None, sgv_diff2 = None, sgv_diff2_smooth = None\<rparr>"
  by (auto simp: groupby_def)


lemma set_prepared:
  assumes "prepare srt entries = Inr df" and "sorts_by_dateTime srt"
  shows "reading ` set (rows df) = set entries"
  using mset_prepared[OF assms] by (metis set_map set_mset_mset)

lemma ascending_filter: "ascending rs \<Longrightarrow> ascending (filter P rs)"
  by (simp add: ascending_def sorted_wrt_filter)

subsection \<open>Differences and moving averages\<close>

lemma length_diff: "length (diff col) = length col"
  by (simp add: diff_def)

lemma nth_diff:
  "i < length col \<Longrightarrow> diff col ! i = (if i = 0 then None else sub (col ! i) (col ! (i - 1)))"
  by (cases i) (simp_all add: diff_def)

lemma length_rolling_mean: "length (rolling_mean w col) = length col"
  by (simp add: rolling_mean_def)

lemma nth_rolling_mean:
  "i < length col \<Longrightarrow> rolling_mean w col ! i = window_mean w (window w col i)"
  by (simp add: rolling_mean_def)

lemma length_dropna: "length (dropna col) \<le> length col"
  by (induction col) (auto simp: dropna_def split: option.splits)

lemma length_dropna_less: "None \<in> set col \<Longrightarrow> length (dropna col) < length col"
proof (induction col)
  case Nil
  then show ?case by simp
next
  case (Cons c col)
  show ?case
  proof (cases c)
    case None
    then show ?thesis using length_dropna[of col] by (simp add: dropna_def)
  next
    case (Some a)
    with Cons show ?thesis by (simp add: dropna_def)
  qed
qed

lemma window_mean_short: "length win < w \<Longrightarrow> window_mean w win = None"
  using length_dropna[of win] by (simp add: window_mean_def Let_def)

lemma window_mean_NaN: "None \<in> set win \<Longrightarrow> length win \<le> w \<Longrightarrow> window_mean w win = None"
  using length_dropna_less[of win] by (simp add: window_mean_def Let_def)

lemma window_mean_4:
  "window_mean 4 [Some a, Some b, Some c, Some e] = Some ((a + b + c + e) / 4)"
  by (simp add: window_mean_def dropna_def)

lemma window_4:
  assumes "3 \<le> i" and "i < length col"
  shows "window 4 col i = [col ! (i - 3), col ! (i - 2), col ! (i - 1), col ! i]"
proof -
  have "Suc i - 4 = i - 3" by simp
  have len: "length (window 4 col i) = 4"
    using assms by (simp add: window_def)
  have nth: "window 4 col i ! j = col ! (i - 3 + j)" if "j < 4" for j
    using assms that by (simp add: window_def)
  show ?thesis
  proof (rule nth_equalityI)
    show "length (window 4 col i) = length [col ! (i - 3), col ! (i - 2), col ! (i - 1), col ! i]"
      using len by simp
  next
    fix j assume "j < length (window 4 col i)"
    then have j: "j < 4" using len by simp
    then consider "j = 0" | "j = 1" | "j = 2" | "j = 3" by linarith
    then show "window 4 col i ! j = [col ! (i - 3), col ! (i - 2), col ! (i - 1), col ! i] ! j"
    proof cases
      case 1 then show ?thesis using nth[of 0] by simp
    next
      case 2
      have "i - 3 + 1 = i - 2" using assms by simp
      with 2 show ?thesis using nth[of 1] by simp
    next
      case 3
      have "i - 3 + 2 = i - 1" using assms by simp
      with 3 show ?thesis using nth[of 2] by (simp add: numeral_2_eq_2)
    next
      case 4
      have "i - 3 + 3 = i" using assms by simp
      with 4 show ?thesis using nth[of 3] by (simp add: numeral_3_eq_3)
    qed
  qed
qed

lemma length_window: "i < length col \<Longrightarrow> length (window w col i) = min (Suc i) w"
  by (auto simp: window_def)

lemma window_mean_average4:
  "window_mean 4 [a, b, c, e] = average4 a b c e"
proof (cases "None \<in> set [a, b, c, e]")
  case True
  then have "average4 a b c e = None"
    by (cases a; cases b; cases c; cases e) auto
  with True show ?thesis using window_mean_NaN[of "[a, b, c, e]" 4] by simp
next
  case False
  then obtain a' b' c' e' where "a = Some a'" "b = Some b'" "c = Some c'" "e = Some e'"
    by (cases a; cases b; cases c; cases e) auto
  then show ?thesis by (simp add: window_mean_4)
qed

lemma nth_rolling_mean_4:
  assumes "i < length col"
  shows "rolling_mean 4 col ! i =
         (if i < 3 then None else average4 (col ! (i - 3)) (col ! (i - 2)) (col ! (i - 1)) (col ! i))"
proof (cases "i < 3")
  case True
  with assms have "length (window 4 col i) < 4" by (simp add: length_window)
  with True assms show ?thesis by (simp add: nth_rolling_mean window_mean_short)
next
  case False
  with assms show ?thesis
    by (simp add: nth_rolling_mean window_4 window_mean_average4)
qed


lemma first_derivative_eq:
  "''sgv'' \<in> set (columns g) \<Longrightarrow>
   first_derivative g =
     Inr (g\<lparr>sgv_diff := Some (diff (map sgv_value (rows g))),
            sgv_diff_smooth := Some (rolling_mean 4 (diff (map sgv_value (rows g))))\<rparr>)"
  by (simp add: first_derivative_def getitem_def)

lemma second_derivative_eq:
  "sgv_diff_smooth g = Some s \<Longrightarrow>
   second_derivative g =
     Inr (g\<lparr>sgv_diff2 := Some (diff s), sgv_diff2_smooth := Some (rolling_mean 4 (diff s))\<rparr>)"
  by (simp add: second_derivative_def)

lemma smooth_diff_undefined:
  assumes "i < length col" and "i < 4"
  shows "rolling_mean 4 (diff col) ! i = None"
proof (cases "i < 3")
  case True
  with assms show ?thesis by (simp add: nth_rolling_mean_4 length_diff)
next
  case False
  with assms have i: "i = 3" by simp
  have "diff col ! 0 = None" using assms by (cases col) (simp_all add: diff_def)
  with assms i show ?thesis by (simp add: nth_rolling_mean_4 length_diff)
qed

lemma first_derivative_Inr:
  "first_derivative g = Inr g1 \<Longrightarrow> ''sgv'' \<in> set (columns g)"
  by (auto simp: first_derivative_def getitem_def split: if_splits)

lemma day_body_eq:
  assumes "''sgv'' \<in> set (columns g)"
  shows "day_body d g =
    ([Subheader Glucose d,
      Plot Glucose d (map dateTime (rows g)) (map sgv_value (rows g)),
      Subheader FirstDerivative d,
      Plot FirstDerivative d (map dateTime (rows g)) (rolling_mean 4 (diff (map sgv_value (rows g)))),
      Subheader SecondDerivative d,
      Plot SecondDerivative d (map dateTime (rows g))
        (rolling_mean 4 (diff (rolling_mean 4 (diff (map sgv_value (rows g))))))],
     Inr (g\<lparr>sgv_diff := Some (diff (map sgv_value (rows g))),
            sgv_diff_smooth := Some (rolling_mean 4 (diff (map sgv_value (rows g)))),
            sgv_diff2 := Some (diff (rolling_mean 4 (diff (map sgv_value (rows g))))),
            sgv_diff2_smooth :=
              Some (rolling_mean 4 (diff (rolling_mean 4 (diff (map sgv_value (rows g))))))\<rparr>))"
proof -
  have g: "getitem g ''sgv'' sgv_value = Inr (map sgv_value (rows g))"
    using assms by (simp add: getitem_def)
  show ?thesis
    unfolding day_body_def Let_def g first_derivative_eq[OF assms]
    by (simp add: second_derivative_def)
qed

lemma smooth2_undefined:
  assumes "i < length col" and "i < 8"
  shows "rolling_mean 4 (diff (rolling_mean 4 (diff col))) ! i = None"
proof -
  let ?s = "rolling_mean 4 (diff col)"
  let ?d2 = "diff ?s"
  have len: "length ?s = length col" "length ?d2 = length col"
    by (simp_all add: length_diff length_rolling_mean)
  have d2: "?d2 ! j = None" if "j < length col" "j < 5" for j
  proof (cases "j = 0")
    case True
    with that len show ?thesis by (simp add: nth_diff)
  next
    case False
    with that have "j - 1 < length col" "j - 1 < 4" by simp_all
    then have "?s ! (j - 1) = None" by (rule smooth_diff_undefined)
    with False that len show ?thesis by (cases "?s ! j") (simp_all add: nth_diff)
  qed
  show ?thesis
  proof (cases "i < 3")
    case True
    with assms len show ?thesis by (simp add: nth_rolling_mean_4)
  next
    case False
    with assms have "i - 3 < length col" "i - 3 < 5" by simp_all
    then have "?d2 ! (i - 3) = None" by (rule d2)
    with False assms len show ?thesis by (simp add: nth_rolling_mean_4)
  qed
qed

lemmas upt_9 = upt_rec[of 0] upt_rec[of 1] upt_rec[of 2] upt_rec[of 3] upt_rec[of 4]
  upt_rec[of 5] upt_rec[of 6] upt_rec[of 7] upt_rec[of 8]

subsection \<open>The loop, the statistics and the whole script\<close>

lemma fold_min_Min: "fold min xs (x::real) = Min (set (x # xs))"
  by (rule Min.set_eq_fold[symmetric])

lemma fold_max_Max: "fold max xs (x::real) = Max (set (x # xs))"
  by (rule Max.set_eq_fold[symmetric])

lemma series_min_Min: "dropna col \<noteq> [] \<Longrightarrow> series_min col = Some (Min (set (dropna col)))"
  by (cases "dropna col") (simp_all add: series_min_def fold_min_Min)

lemma series_max_Max: "dropna col \<noteq> [] \<Longrightarrow> series_max col = Some (Max (set (dropna col)))"
  by (cases "dropna col") (simp_all add: series_max_def fold_max_Max)

lemma mset_dropna: "mset (dropna col) = image_mset the (filter_mset (\<lambda>c. c \<noteq> None) (mset col))"
  by (induction col) (auto simp: dropna_def split: option.splits)

lemma mset_dropna_cong: "mset col = mset col' \<Longrightarrow> mset (dropna col) = mset (dropna col')"
  by (simp add: mset_dropna)

lemma sum_list_mset_cong: "mset xs = mset ys \<Longrightarrow> sum_list (map f xs) = (sum_list (map f ys) :: real)"
proof -
  assume "mset xs = mset ys"
  then have "mset (map f xs) = mset (map f ys)" by simp
  then have "sum_mset (mset (map f xs)) = sum_mset (mset (map f ys))" by (rule arg_cong)
  then show ?thesis by (simp only: sum_mset_sum_list)
qed

lemma sum_list_mset_cong': "mset xs = mset ys \<Longrightarrow> sum_list xs = sum_list (ys::real list)"
proof -
  assume "mset xs = mset ys"
  then have "sum_mset (mset xs) = sum_mset (mset ys)" by (rule arg_cong)
  then show ?thesis by (simp only: sum_mset_sum_list)
qed

lemma series_min_cong: "mset (dropna col) = mset (dropna col') \<Longrightarrow> series_min col = series_min col'"
proof -
  assume a: "mset (dropna col) = mset (dropna col')"
  then have s: "set (dropna col) = set (dropna col')" by (rule mset_eq_setD)
  show ?thesis
  proof (cases "dropna col = []")
    case True
    with a have "dropna col' = []" by simp
    with True show ?thesis by (simp add: series_min_def)
  next
    case False
    with a have "dropna col' \<noteq> []" by auto
    with False s show ?thesis by (simp add: series_min_Min)
  qed
qed

lemma series_max_cong: "mset (dropna col) = mset (dropna col') \<Longrightarrow> series_max col = series_max col'"
proof -
  assume a: "mset (dropna col) = mset (dropna col')"
  then have s: "set (dropna col) = set (dropna col')" by (rule mset_eq_setD)
  show ?thesis
  proof (cases "dropna col = []")
    case True
    with a have "dropna col' = []" by simp
    with True show ?thesis by (simp add: series_max_def)
  next
    case False
    with a have "dropna col' \<noteq> []" by auto
    with False s show ?thesis by (simp add: series_max_Max)
  qed
qed

lemma series_mean_cong: "mset (dropna col) = mset (dropna col') \<Longrightarrow> series_mean col = series_mean col'"
proof -
  assume a: "mset (dropna col) = mset (dropna col')"
  then have "length (dropna col) = length (dropna col')" by (rule mset_eq_length)
  moreover have "sum_list (dropna col) = sum_list (dropna col')" using a by (rule sum_list_mset_cong')
  moreover have "dropna col = [] \<longleftrightarrow> dropna col' = []"
    using mset_eq_length[OF a] by (simp flip: length_0_conv)
  ultimately show ?thesis by (simp add: series_mean_def Let_def)
qed

lemma series_std_cong: "mset (dropna col) = mset (dropna col') \<Longrightarrow> series_std col = series_std col'"
proof -
  assume a: "mset (dropna col) = mset (dropna col')"
  then have len: "length (dropna col) = length (dropna col')" by (rule mset_eq_length)
  have tot: "sum_list (dropna col) = sum_list (dropna col')" using a by (rule sum_list_mset_cong')
  have sq: "sum_list (map (\<lambda>x. (x - m)\<^sup>2) (dropna col)) = sum_list (map (\<lambda>x. (x - m)\<^sup>2) (dropna col'))" for m
    using a by (rule sum_list_mset_cong)
  show ?thesis
    unfolding series_std_def Let_def len tot sq ..
qed

lemma sgv_column_prepared:
  assumes "prepare srt entries = Inr df" and "sorts_by_dateTime srt"
  shows "mset (map sgv_value (rows df)) = mset (map (\<lambda>e. map_option real_of_int (sgv e)) entries)"
proof -
  have "map sgv_value (rows df) = map (\<lambda>e. map_option real_of_int (sgv e)) (map reading (rows df))"
    by (simp add: sgv_value_def reading_def o_def)
  then have "mset (map sgv_value (rows df)) =
      image_mset (\<lambda>e. map_option real_of_int (sgv e)) (mset (map reading (rows df)))"
    by (simp only: mset_map)
  also have "\<dots> = image_mset (\<lambda>e. map_option real_of_int (sgv e)) (mset entries)"
    by (simp only: mset_prepared[OF assms])
  finally show ?thesis by (simp only: mset_map)
qed

lemma columns_prepared:
  assumes "prepare srt entries = Inr df"
  shows "''sgv'' \<in> set (columns df) \<longleftrightarrow> list_ex (\<lambda>e. sgv e \<noteq> None) entries"
  using assms by (auto simp: prepare_Inr DataFrame_def)

lemma columns_groupby: "(k, g) \<in> set (groupby df) \<Longrightarrow> columns g = columns df"
  by (auto simp: in_groupby)

lemma for_groups_ok:
  "\<forall>(d, g) \<in> set gs. ''sgv'' \<in> set (columns g) \<Longrightarrow>
   for_groups gs = (concat (map (\<lambda>(d, g). fst (day_body d g)) gs), None)"
proof (induction gs)
  case Nil
  show ?case by simp
next
  case (Cons dg gs)
  obtain d g where dg: "dg = (d, g)" by (cases dg)
  with Cons.prems have c: "''sgv'' \<in> set (columns g)" by simp
  from Cons have ih: "for_groups gs = (concat (map (\<lambda>(d, g). fst (day_body d g)) gs), None)" by simp
  show ?case
    unfolding dg by (simp add: day_body_eq[OF c] ih)
qed

lemma no_statistics_in_day: "''sgv'' \<in> set (columns g) \<Longrightarrow> filter is_statistics (fst (day_body d g)) = []"
  by (simp add: day_body_eq)

lemma no_error_in_day: "''sgv'' \<in> set (columns g) \<Longrightarrow> filter is_error (fst (day_body d g)) = []"
  by (simp add: day_body_eq)

lemma main_eq:
  assumes "prepare srt entries = Inr df" and "''sgv'' \<in> set (columns df)"
  shows "main srt entries =
     concat (map (\<lambda>(d, g). fst (day_body d g)) (groupby df)) @
     [Statistics (series_min (map sgv_value (rows df))) (series_max (map sgv_value (rows df)))
        (series_mean (map sgv_value (rows df))) (series_std (map sgv_value (rows df)))]"
proof -
  have ne: "entries \<noteq> []"
    using assms(1) by (auto simp: prepare_Inr)
  have "\<forall>(d, g) \<in> set (groupby df). ''sgv'' \<in> set (columns g)"
    using assms(2) by (auto simp: columns_groupby)
  then have loop: "for_groups (groupby df) = (concat (map (\<lambda>(d, g). fst (day_body d g)) (groupby df)), None)"
    by (rule for_groups_ok)
  have st: "statistics df = Inr (Statistics (series_min (map sgv_value (rows df))) (series_max (map sgv_value (rows df)))
        (series_mean (map sgv_value (rows df))) (series_std (map sgv_value (rows df))))"
    using assms(2) by (simp add: statistics_def getitem_def)
  show ?thesis
    using ne by (simp add: main_def assms(1) loop st)
qed

lemma set_dropna: "set (dropna col) = {x. Some x \<in> set col}"
  by (simp add: dropna_def set_map_filter_eq)

lemma glucose_values_nonempty:
  "list_ex (\<lambda>e. sgv e \<noteq> None) entries \<Longrightarrow> glucose_values entries \<noteq> []"
proof -
  assume "list_ex (\<lambda>e. sgv e \<noteq> None) entries"
  then obtain e v where "e \<in> set entries" "sgv e = Some v" by (auto simp: list_ex_iff)
  then have "Some (real_of_int v) \<in> set (map (\<lambda>e. map_option real_of_int (sgv e)) entries)"
    by (force simp: image_iff)
  then have "real_of_int v \<in> set (glucose_values entries)"
    unfolding glucose_values_def set_dropna by simp
  then show ?thesis by auto
qed

lemma statistics_of_values:
  assumes "dropna col = vals" and "vals \<noteq> []"
  shows "series_min col = Some (Min (set vals))"
    and "series_max col = Some (Max (set vals))"
    and "series_mean col = Some (mean vals)"
    and "series_std col = (if length vals < 2 then None else Some (sample_std vals))"
  using assms
  by (simp_all add: series_min_Min series_max_Max series_mean_def series_std_def Let_def
      mean_def sample_std_def)









subsection \<open>The statistics shown, and readings without a glucose value\<close>

lemma main_statistics:
  assumes "sorts_by_dateTime srt" and "prepare srt entries = Inr df"
    and "list_ex (\<lambda>e. sgv e \<noteq> None) entries"
  shows "main srt entries =
     concat (map (\<lambda>(d, g). fst (day_body d g)) (groupby df)) @
     [Statistics (Some (Min (set (glucose_values entries))))
        (Some (Max (set (glucose_values entries))))
        (Some (mean (glucose_values entries)))
        (if length (glucose_values entries) < 2 then None
         else Some (sample_std (glucose_values entries)))]"
proof -
  define vals where "vals = glucose_values entries"
  define col where "col = map sgv_value (rows df)"
  have c: "''sgv'' \<in> set (columns df)"
    using assms(2,3) by (simp add: columns_prepared)
  have ne: "vals \<noteq> []"
    unfolding vals_def using assms(3) by (rule glucose_values_nonempty)
  have perm: "mset (dropna col) = mset (dropna (map (\<lambda>e. map_option real_of_int (sgv e)) entries))"
    unfolding col_def using sgv_column_prepared[OF assms(2,1)] by (rule mset_dropna_cong)
  let ?col' = "map (\<lambda>e. map_option real_of_int (sgv e)) entries"
  have d: "dropna ?col' = vals" by (simp add: vals_def glucose_values_def)
  have mn: "series_min col = Some (Min (set vals))"
    using series_min_cong[OF perm] statistics_of_values(1)[OF d ne] by simp
  have mx: "series_max col = Some (Max (set vals))"
    using series_max_cong[OF perm] statistics_of_values(2)[OF d ne] by simp
  have av: "series_mean col = Some (mean vals)"
    using series_mean_cong[OF perm] statistics_of_values(3)[OF d ne] by simp
  have sd: "series_std col = (if length vals < 2 then None else Some (sample_std vals))"
    using series_std_cong[OF perm] statistics_of_values(4)[OF d ne] by simp
  show ?thesis
    using main_eq[OF assms(2) c] unfolding col_def[symmetric] mn mx av sd vals_def
    by simp
qed






lemma fmt2_near:
  assumes "of_int h - 2 / 5 \<le> x * 100" and "x * 100 \<le> of_int h + 2 / 5"
  shows "fmt2 x = h"
proof (cases "x * 100 < of_int h")
  case True
  with assms(1) have f: "\<lfloor>x * 100\<rfloor> = h - 1"
    by (simp add: floor_eq_iff)
  have "1 / 2 < x * 100 - of_int (h - 1)"
    using assms(1) by simp
  then show ?thesis
    unfolding fmt2_def Let_def f by simp
next
  case False
  with assms(2) have f: "\<lfloor>x * 100\<rfloor> = h"
    by (simp add: floor_eq_iff)
  have "x * 100 - of_int h < 1 / 2"
    using assms(2) by simp
  then show ?thesis
    unfolding fmt2_def Let_def f by simp
qed

lemma fmt2_near_105: "\<bar>y - 105\<bar> \<le> 1 / 1000 \<Longrightarrow> fmt2 y = 10500"
proof -
  assume "\<bar>y - 105\<bar> \<le> 1 / 1000"
  then have "y - 105 \<le> 1 / 1000" "- (y - 105) \<le> 1 / 1000"
    by (simp_all only: abs_le_iff)
  then have "of_int 10500 - 2 / 5 \<le> y * 100" "y * 100 \<le> of_int 10500 + 2 / 5"
    by simp_all
  then show ?thesis by (rule fmt2_near)
qed

lemma sqrt_500_3: "129099 / 10000 < sqrt (500 / 3)" "sqrt (500 / 3) < 1291 / 100"
proof -
  show "129099 / 10000 < sqrt (500 / 3)"
    by (rule real_less_rsqrt) (simp add: power2_eq_square)
  show "sqrt (500 / 3) < 1291 / 100"
    by (rule real_less_lsqrt) (simp_all add: power2_eq_square)
qed

lemma fmt2_near_sqrt: "\<bar>y - sqrt (500 / 3)\<bar> \<le> 1 / 1000 \<Longrightarrow> fmt2 y = 1291"
proof -
  assume "\<bar>y - sqrt (500 / 3)\<bar> \<le> 1 / 1000"
  then have d: "y - sqrt (500 / 3) \<le> 1 / 1000" "- (y - sqrt (500 / 3)) \<le> 1 / 1000"
    by (simp_all only: abs_le_iff)
  have lo: "of_int 1291 - 2 / 5 \<le> y * 100"
    using d sqrt_500_3 by simp
  have up: "y * 100 \<le> of_int 1291 + 2 / 5"
    using d sqrt_500_3 by simp
  from lo up show ?thesis by (rule fmt2_near)
qed

subsection \<open>The claims\<close>







text \<open>
  C4. Sorting and partitioning a Series whose readings all have a (representable) timestamp
  yields an exact partition. For the empty Series no DayGroup is produced: no chart or
  chart heading is shown. For a non-empty Series the sorted DataFrame \<open>df\<close> is a
  permutation of the fetched readings in ascending order, the rows of all DayGroups
  together are exactly the rows of \<open>df\<close> (each as often as in \<open>df\<close>), the keys are
  pairwise different, every DayGroup is a subsequence of \<open>df\<close> (so it keeps the sorted
  order) whose rows all have the group's key, and every row of \<open>df\<close> is in the group of
  exactly one key.
\<close>

theorem sort_and_partition_exact:
  assumes "sorts_by_dateTime srt"
    and "\<forall>e \<in> set entries. \<exists>ms. date e = Some ms \<and> in_bounds ms"
  shows "(entries = [] \<longrightarrow>
            filter is_subheader (main srt entries) = [] \<and> filter is_plot (main srt entries) = []) \<and>
         (entries \<noteq> [] \<longrightarrow>
            (\<exists>df gs. prepare srt entries = Inr df \<and> grouped srt entries = Inr gs \<and>
               ascending (rows df) \<and>
               mset (map reading (rows df)) = mset entries \<and>
               mset (concat (map (\<lambda>(k, g). rows g) gs)) = mset (rows df) \<and>
               distinct (map fst gs) \<and>
               (\<forall>(k, g) \<in> set gs.
                  subseq (rows g) (rows df) \<and> ascending (rows g) \<and>
                  (\<forall>r \<in> set (rows g). date r = Some k)) \<and>
               (\<forall>r \<in> set (rows df). \<exists>!k. \<exists>g. (k, g) \<in> set gs \<and> r \<in> set (rows g))))"
proof (intro conjI impI)
  assume "entries = []"
  then show "filter is_subheader (main srt entries) = []" "filter is_plot (main srt entries) = []"
    by (simp_all add: main_def)
next
  assume ne: "entries \<noteq> []"
  define df where "df = \<lparr>columns = columns (DataFrame entries) @ [''dateTime''],
     rows = map (\<lambda>r. r\<lparr>date := map_option dt_date (dateTime r)\<rparr>) (srt (map fetched entries))\<rparr>"
  have ex: "list_ex (\<lambda>e. date e \<noteq> None) entries"
    using ne assms(2) by (cases entries) (auto simp: list_ex_iff)
  have all: "list_all (\<lambda>e. case date e of None \<Rightarrow> True | Some ms \<Rightarrow> in_bounds ms) entries"
    using assms(2) by (auto simp: list_all_iff)
  have df: "prepare srt entries = Inr df"
    using ex all by (simp add: prepare_Inr df_def)
  then have gs: "grouped srt entries = Inr (groupby df)"
    by (simp add: grouped_def)
  have asc: "ascending (rows df)"
    by (rule ascending_prepared[OF df assms(1)])
  have perm: "mset (map reading (rows df)) = mset entries"
    by (rule mset_prepared[OF df assms(1)])
  have dated: "date r \<noteq> None" if "r \<in> set (rows df)" for r
  proof -
    from that have "reading r \<in> set entries"
      using set_prepared[OF df assms(1)] by blast
    with assms(2) have "dateTime r \<noteq> None" by (auto simp: reading_def)
    with date_prepared[OF df that] show ?thesis by auto
  qed
  then have "filter (\<lambda>r. date r \<noteq> None) (rows df) = rows df"
    by (simp add: filter_id_conv)
  then have union: "mset (concat (map (\<lambda>(k, g). rows g) (groupby df))) = mset (rows df)"
    by (simp add: mset_groupby)
  have dist: "distinct (map fst (groupby df))"
    using strict_group_keys[of "rows df"] by (simp add: keys_groupby strict_sorted_iff)
  have each: "subseq (rows g) (rows df) \<and> ascending (rows g) \<and> (\<forall>r \<in> set (rows g). date r = Some k)"
    if "(k, g) \<in> set (groupby df)" for k g
    using that asc by (auto simp: in_groupby ascending_filter)
  have one: "\<exists>!k. \<exists>g. (k, g) \<in> set (groupby df) \<and> r \<in> set (rows g)" if r: "r \<in> set (rows df)" for r
  proof -
    from dated[OF r] obtain k where k: "date r = Some k" by auto
    show ?thesis
    proof (rule ex1I[of _ k])
      show "\<exists>g. (k, g) \<in> set (groupby df) \<and> r \<in> set (rows g)"
        using r k by (auto simp: in_groupby set_group_keys)
    next
      fix k' assume "\<exists>g. (k', g) \<in> set (groupby df) \<and> r \<in> set (rows g)"
      then show "k' = k" using k by (auto simp: in_groupby)
    qed
  qed
  show "\<exists>df gs. prepare srt entries = Inr df \<and> grouped srt entries = Inr gs \<and>
               ascending (rows df) \<and>
               mset (map reading (rows df)) = mset entries \<and>
               mset (concat (map (\<lambda>(k, g). rows g) gs)) = mset (rows df) \<and>
               distinct (map fst gs) \<and>
               (\<forall>(k, g) \<in> set gs.
                  subseq (rows g) (rows df) \<and> ascending (rows g) \<and>
                  (\<forall>r \<in> set (rows g). date r = Some k)) \<and>
               (\<forall>r \<in> set (rows df). \<exists>!k. \<exists>g. (k, g) \<in> set gs \<and> r \<in> set (rows g))"
    using df gs asc perm union dist each one by blast
qed

theorem sort_and_partition_exact_witness:
  "sorts_by_dateTime stable_sort \<and>
   in_bounds 86700000 \<and> in_bounds 300000 \<and> in_bounds 0 \<and>
   (\<exists>df gs. prepare stable_sort [\<lparr>date = Some 86700000, sgv = Some 95\<rparr>,
                \<lparr>date = Some 300000, sgv = Some 105\<rparr>, \<lparr>date = Some 0, sgv = Some 100\<rparr>] = Inr df \<and>
      grouped stable_sort [\<lparr>date = Some 86700000, sgv = Some 95\<rparr>,
                \<lparr>date = Some 300000, sgv = Some 105\<rparr>, \<lparr>date = Some 0, sgv = Some 100\<rparr>] = Inr gs \<and>
      mset (concat (map (\<lambda>(k, g). rows g) gs)) = mset (rows df) \<and>
      map (\<lambda>(k, g). (k, map sgv (rows g))) gs = [(0, [Some 100, Some 105]), (1, [Some 95])])"
proof -
  let ?E = "[\<lparr>date = Some 86700000, sgv = Some 95\<rparr>, \<lparr>date = Some 300000, sgv = Some 105\<rparr>,
             \<lparr>date = Some 0, sgv = Some 100\<rparr>]"
  have h: "\<forall>e \<in> set ?E. \<exists>ms. date e = Some ms \<and> in_bounds ms"
    by (simp add: in_bounds_def)
  have v: "map_sum id (map (\<lambda>(k, g). (k, map sgv (rows g)))) (grouped stable_sort ?E) =
           Inr [(0, [Some 100, Some 105]), (1, [Some 95])]"
    by (simp add: grouped_def prepare_def DataFrame_def getitem_def to_datetime_def in_bounds_def
      set_dateTime_def sort_values_def stable_sort_def set_date_def dt_date_def groupby_def
      group_keys_def)
  from sort_and_partition_exact [OF sorts_stable_sort h] v sorts_stable_sort show ?thesis
    by (auto simp: in_bounds_def)
qed

text \<open>
  C5. For a day's group that has the glucose column, the first derivative \<open>d\<close> and its
  smoothing \<open>s\<close> stored by lines 144 to 147 are as long as the group; \<open>d\<close> is undefined at
  index 0 and at every later index is the value there minus the value before it
  (undefined if one of the two is); \<open>s\<close> is undefined at every index below 4 and from
  index 4 on is the mean of the four differences ending there (undefined if one of them
  is). For the day values 100, 105, 95, 110, 108, 120, 115 the differences are
  _, 5, -10, 15, -2, 12, -5 and the first defined smoothed value is 2, at index 4.
\<close>

theorem first_derivative_smoothed:
  assumes "''sgv'' \<in> set (columns g)"
  shows "\<exists>d s. first_derivative g = Inr (g\<lparr>sgv_diff := Some d, sgv_diff_smooth := Some s\<rparr>) \<and>
           length d = length (rows g) \<and> length s = length (rows g) \<and>
           (\<forall>i < length (rows g).
              d ! i = (if i = 0 then None
                       else sub (sgv_value (rows g ! i)) (sgv_value (rows g ! (i - 1)))) \<and>
              s ! i = (if i < 4 then None
                       else average4 (d ! (i - 3)) (d ! (i - 2)) (d ! (i - 1)) (d ! i))) \<and>
           (map sgv (rows g) = [Some 100, Some 105, Some 95, Some 110, Some 108, Some 120, Some 115] \<longrightarrow>
              d = [None, Some 5, Some (- 10), Some 15, Some (- 2), Some 12, Some (- 5)] \<and>
              s = [None, None, None, None, Some 2, Some (15 / 4), Some 5])"
proof -
  define v where "v = map sgv_value (rows g)"
  define d where "d = diff v"
  define s where "s = rolling_mean 4 d"
  have run: "first_derivative g = Inr (g\<lparr>sgv_diff := Some d, sgv_diff_smooth := Some s\<rparr>)"
    using first_derivative_eq[OF assms] by (simp add: v_def d_def s_def)
  have len: "length d = length (rows g)" "length s = length (rows g)"
    by (simp_all add: v_def d_def s_def length_diff length_rolling_mean)
  have d: "d ! i = (if i = 0 then None else sub (sgv_value (rows g ! i)) (sgv_value (rows g ! (i - 1))))"
    if "i < length (rows g)" for i
    using that by (simp add: d_def v_def nth_diff)
  have s: "s ! i = (if i < 4 then None else average4 (d ! (i - 3)) (d ! (i - 2)) (d ! (i - 1)) (d ! i))"
    if "i < length (rows g)" for i
  proof (cases "i < 4")
    case True
    with that show ?thesis using smooth_diff_undefined[of i v] by (simp add: s_def d_def v_def)
  next
    case False
    with that len show ?thesis by (simp add: s_def nth_rolling_mean_4)
  qed
  have ex: "d = [None, Some 5, Some (- 10), Some 15, Some (- 2), Some 12, Some (- 5)] \<and>
            s = [None, None, None, None, Some 2, Some (15 / 4), Some 5]"
    if "map sgv (rows g) = [Some 100, Some 105, Some 95, Some 110, Some 108, Some 120, Some 115]"
  proof -
    have "v = map (map_option real_of_int) (map sgv (rows g))"
      by (simp add: v_def sgv_value_def o_def)
    then have v: "v = [Some 100, Some 105, Some 95, Some 110, Some 108, Some 120, Some 115]"
      by (simp add: that)
    have dd: "d = [None, Some 5, Some (- 10), Some 15, Some (- 2), Some 12, Some (- 5)]"
      unfolding d_def v by (simp add: diff_def)
    have "s = [None, None, None, None, Some 2, Some (15 / 4), Some 5]"
      unfolding s_def dd
      by (simp add: rolling_mean_def window_def window_mean_def dropna_def upt_rec[of 0] upt_rec[of 1]
          upt_rec[of 2] upt_rec[of 3] upt_rec[of 4] upt_rec[of 5] upt_rec[of 6])
    with dd show ?thesis by simp
  qed
  from run len d s ex show ?thesis by blast
qed


theorem first_derivative_smoothed_witness:
  "''sgv'' \<in> set (columns (day_of [100, 105, 95, 110, 108, 120, 115])) \<and>
   first_derivative (day_of [100, 105, 95, 110, 108, 120, 115]) =
     Inr ((day_of [100, 105, 95, 110, 108, 120, 115])
            \<lparr>sgv_diff := Some [None, Some 5, Some (- 10), Some 15, Some (- 2), Some 12, Some (- 5)],
             sgv_diff_smooth := Some [None, None, None, None, Some 2, Some (15 / 4), Some 5]\<rparr>)"
proof -
  have c: "''sgv'' \<in> set (columns (day_of [100, 105, 95, 110, 108, 120, 115]))"
    by (simp add: day_of_def)
  have v: "map sgv (rows (day_of [100, 105, 95, 110, 108, 120, 115])) =
           [Some 100, Some 105, Some 95, Some 110, Some 108, Some 120, Some 115]"
    by (simp add: day_of_def)
  from first_derivative_smoothed [OF c] v c show ?thesis
    by auto
qed

text \<open>
  C6. After the first derivative has been stored, lines 160 to 162 store as second
  derivative \<open>d2\<close> the differences of the smoothed first derivative \<open>s\<close> (the column
  \<^verbatim>\<open>sgv_diff_smooth\<close>, not \<^verbatim>\<open>sgv_diff\<close>): \<open>d2\<close> is undefined at index 0 and is
  \<open>s[i] - s[i-1]\<close> after it, undefined when one of the two is; and they store as its
  smoothing \<open>s2\<close> the trailing moving average of window 4 of \<open>d2\<close>, undefined below index 3
  and wherever one of the four values is undefined.
\<close>

theorem second_derivative_of_smoothed:
  assumes "first_derivative g = Inr g1"
  shows "\<exists>s d2 s2. sgv_diff_smooth g1 = Some s \<and>
           second_derivative g1 = Inr (g1\<lparr>sgv_diff2 := Some d2, sgv_diff2_smooth := Some s2\<rparr>) \<and>
           length s = length (rows g) \<and> length d2 = length (rows g) \<and>
           length s2 = length (rows g) \<and>
           (\<forall>i < length (rows g).
              d2 ! i = (if i = 0 then None else sub (s ! i) (s ! (i - 1))) \<and>
              s2 ! i = (if i < 3 then None
                        else average4 (d2 ! (i - 3)) (d2 ! (i - 2)) (d2 ! (i - 1)) (d2 ! i)))"
proof -
  define s where "s = rolling_mean 4 (diff (map sgv_value (rows g)))"
  define d2 where "d2 = diff s"
  define s2 where "s2 = rolling_mean 4 d2"
  have col: "''sgv'' \<in> set (columns g)"
    by (rule first_derivative_Inr[OF assms])
  have g1: "g1 = g\<lparr>sgv_diff := Some (diff (map sgv_value (rows g))), sgv_diff_smooth := Some s\<rparr>"
    using assms first_derivative_eq[OF col] by (simp add: s_def)
  then have sm: "sgv_diff_smooth g1 = Some s" by simp
  have run: "second_derivative g1 = Inr (g1\<lparr>sgv_diff2 := Some d2, sgv_diff2_smooth := Some s2\<rparr>)"
    using second_derivative_eq[OF sm] by (simp add: d2_def s2_def)
  have len: "length s = length (rows g)" "length d2 = length (rows g)" "length s2 = length (rows g)"
    by (simp_all add: s_def d2_def s2_def length_diff length_rolling_mean)
  have d2: "d2 ! i = (if i = 0 then None else sub (s ! i) (s ! (i - 1)))" if "i < length (rows g)" for i
    using that len by (simp add: d2_def nth_diff)
  have s2: "s2 ! i = (if i < 3 then None else average4 (d2 ! (i - 3)) (d2 ! (i - 2)) (d2 ! (i - 1)) (d2 ! i))"
    if "i < length (rows g)" for i
    using that len by (simp add: s2_def nth_rolling_mean_4)
  from sm run len d2 s2 show ?thesis by blast
qed

theorem second_derivative_of_smoothed_witness:
  "first_derivative (day_of [100, 105, 95, 110, 108, 120, 115, 118, 125]) =
     Inr ((day_of [100, 105, 95, 110, 108, 120, 115, 118, 125])
            \<lparr>sgv_diff := Some [None, Some 5, Some (- 10), Some 15, Some (- 2), Some 12, Some (- 5),
                               Some 3, Some 7],
             sgv_diff_smooth := Some [None, None, None, None, Some 2, Some (15 / 4), Some 5,
                                      Some 2, Some (17 / 4)]\<rparr>) \<and>
   second_derivative ((day_of [100, 105, 95, 110, 108, 120, 115, 118, 125])
            \<lparr>sgv_diff := Some [None, Some 5, Some (- 10), Some 15, Some (- 2), Some 12, Some (- 5),
                               Some 3, Some 7],
             sgv_diff_smooth := Some [None, None, None, None, Some 2, Some (15 / 4), Some 5,
                                      Some 2, Some (17 / 4)]\<rparr>) =
     Inr ((day_of [100, 105, 95, 110, 108, 120, 115, 118, 125])
            \<lparr>sgv_diff := Some [None, Some 5, Some (- 10), Some 15, Some (- 2), Some 12, Some (- 5),
                               Some 3, Some 7],
             sgv_diff_smooth := Some [None, None, None, None, Some 2, Some (15 / 4), Some 5,
                                      Some 2, Some (17 / 4)],
             sgv_diff2 := Some [None, None, None, None, None, Some (7 / 4), Some (5 / 4),
                                Some (- 3), Some (9 / 4)],
             sgv_diff2_smooth := Some [None, None, None, None, None, None, None, None,
                                       Some (9 / 16)]\<rparr>) \<and>
   (\<exists>s d2 s2. sgv_diff_smooth ((day_of [100, 105, 95, 110, 108, 120, 115, 118, 125])
            \<lparr>sgv_diff := Some [None, Some 5, Some (- 10), Some 15, Some (- 2), Some 12, Some (- 5),
                               Some 3, Some 7],
             sgv_diff_smooth := Some [None, None, None, None, Some 2, Some (15 / 4), Some 5,
                                      Some 2, Some (17 / 4)]\<rparr>) = Some s \<and>
      length s = 9 \<and> length d2 = 9 \<and> length s2 = 9 \<and>
      d2 ! 5 = sub (s ! 5) (s ! 4) \<and>
      s2 ! 8 = average4 (d2 ! 5) (d2 ! 6) (d2 ! 7) (d2 ! 8))"
proof -
  let ?g = "day_of [100, 105, 95, 110, 108, 120, 115, 118, 125]"
  let ?g1 = "?g\<lparr>sgv_diff := Some [None, Some 5, Some (- 10), Some 15, Some (- 2), Some 12, Some (- 5),
                               Some 3, Some 7],
             sgv_diff_smooth := Some [None, None, None, None, Some 2, Some (15 / 4), Some 5,
                                      Some 2, Some (17 / 4)]\<rparr>"
  have f: "first_derivative ?g = Inr ?g1"
    by (simp add: first_derivative_def getitem_def day_of_def sgv_value_def diff_def
        rolling_mean_def window_def window_mean_def dropna_def upt_9)
  have e: "second_derivative ?g1 =
     Inr (?g1\<lparr>sgv_diff2 := Some [None, None, None, None, None, Some (7 / 4), Some (5 / 4),
                                Some (- 3), Some (9 / 4)],
             sgv_diff2_smooth := Some [None, None, None, None, None, None, None, None,
                                       Some (9 / 16)]\<rparr>)"
    by (simp add: second_derivative_def diff_def
        rolling_mean_def window_def window_mean_def dropna_def upt_9)
  have n: "length (rows ?g) = 9"
    by (simp add: day_of_def)
  from second_derivative_of_smoothed [OF f]
  obtain s d2 s2 where *: "sgv_diff_smooth ?g1 = Some s" "length s = 9" "length d2 = 9" "length s2 = 9"
    "\<forall>i<9. d2 ! i = (if i = 0 then None else sub (s ! i) (s ! (i - 1))) \<and>
              s2 ! i = (if i < 3 then None
                        else average4 (d2 ! (i - 3)) (d2 ! (i - 2)) (d2 ! (i - 1)) (d2 ! i))"
    unfolding n by blast
  have "d2 ! 5 = sub (s ! 5) (s ! 4)" "s2 ! 8 = average4 (d2 ! 5) (d2 ! 6) (d2 ! 7) (d2 ! 8)"
    using *(5)[rule_format, of 5] *(5)[rule_format, of 8] by simp_all
  with * f e show ?thesis by blast
qed

text \<open>
  C7. When the DataFrame can be built and some reading has a glucose value, the script
  ends with the statistics of the glucose values of the whole fetched Series, all days
  together and whatever the sort did with ties: their minimum, their maximum, their
  arithmetic mean and their sample standard deviation (undefined for a single value);
  nothing shown before them is a statistics block or an error. For the values 90, 100,
  110, 120 these are 90, 120, 105 and the square root of 500/3; every number within 0.001
  of that mean is printed by \<^verbatim>\<open>:.2f\<close> as 105.00, and every number within 0.001 of that
  standard deviation as 12.91.
\<close>

theorem summary_statistics:
  assumes "sorts_by_dateTime srt" and "prepare srt entries = Inr df"
    and "list_ex (\<lambda>e. sgv e \<noteq> None) entries"
  shows "(\<exists>evs. main srt entries =
            evs @ [Statistics (Some (Min (set (glucose_values entries))))
                     (Some (Max (set (glucose_values entries))))
                     (Some (mean (glucose_values entries)))
                     (if length (glucose_values entries) < 2 then None
                      else Some (sample_std (glucose_values entries)))] \<and>
            filter is_statistics evs = [] \<and> filter is_error evs = []) \<and>
         (map sgv entries = [Some 90, Some 100, Some 110, Some 120] \<longrightarrow>
            last (main srt entries) =
              Statistics (Some 90) (Some 120) (Some 105) (Some (sqrt (500 / 3))) \<and>
            (\<forall>y. \<bar>y - 105\<bar> \<le> 1 / 1000 \<longrightarrow> fmt2 y = 10500) \<and>
            (\<forall>y. \<bar>y - sqrt (500 / 3)\<bar> \<le> 1 / 1000 \<longrightarrow> fmt2 y = 1291))"
proof -
  define vals where "vals = glucose_values entries"
  define evs where "evs = concat (map (\<lambda>(d, g). fst (day_body d g)) (groupby df))"
  have c: "''sgv'' \<in> set (columns df)"
    using assms(2,3) by (simp add: columns_prepared)
  have run: "main srt entries =
      evs @ [Statistics (Some (Min (set vals))) (Some (Max (set vals))) (Some (mean vals))
               (if length vals < 2 then None else Some (sample_std vals))]"
    unfolding evs_def vals_def by (rule main_statistics[OF assms])
  have "\<forall>(d, g) \<in> set (groupby df). ''sgv'' \<in> set (columns g)"
    using c by (auto simp: columns_groupby)
  then have clean: "filter is_statistics evs = []" "filter is_error evs = []"
    unfolding evs_def
    by (auto simp: filter_concat no_statistics_in_day no_error_in_day concat_eq_Nil_conv)
  have ex: "last (main srt entries) = Statistics (Some 90) (Some 120) (Some 105) (Some (sqrt (500 / 3)))"
    if "map sgv entries = [Some 90, Some 100, Some 110, Some 120]"
  proof -
    have "map (\<lambda>e. map_option real_of_int (sgv e)) entries = map (map_option real_of_int) (map sgv entries)"
      by (simp add: o_def)
    then have v: "vals = [90, 100, 110, 120]"
      unfolding vals_def glucose_values_def that by (simp add: dropna_def)
    have m: "mean vals = 105" unfolding v by (simp add: mean_def)
    have s: "sample_std vals = sqrt (500 / 3)"
      unfolding sample_std_def m unfolding v by (simp add: power2_eq_square)
    have "last (main srt entries) = Statistics (Some (Min (set vals))) (Some (Max (set vals)))
        (Some (mean vals)) (if length vals < 2 then None else Some (sample_std vals))"
      unfolding run by simp
    also have "\<dots> = Statistics (Some 90) (Some 120) (Some 105) (Some (sqrt (500 / 3)))"
      unfolding m s unfolding v by simp
    finally show ?thesis .
  qed
  have general: "\<exists>evs. main srt entries =
            evs @ [Statistics (Some (Min (set vals))) (Some (Max (set vals))) (Some (mean vals))
                     (if length vals < 2 then None else Some (sample_std vals))] \<and>
            filter is_statistics evs = [] \<and> filter is_error evs = []"
    using run clean by blast
  have shown: "(\<forall>y. \<bar>y - 105\<bar> \<le> 1 / 1000 \<longrightarrow> fmt2 y = 10500) \<and>
               (\<forall>y. \<bar>y - sqrt (500 / 3)\<bar> \<le> 1 / 1000 \<longrightarrow> fmt2 y = 1291)"
    using fmt2_near_105 fmt2_near_sqrt by blast
  from general ex shown show ?thesis
    unfolding vals_def by simp
qed

theorem summary_statistics_witness:
  "sorts_by_dateTime stable_sort \<and>
   list_ex (\<lambda>e. sgv e \<noteq> None)
     [\<lparr>date = Some 0, sgv = Some 90\<rparr>, \<lparr>date = Some 300000, sgv = Some 100\<rparr>,
      \<lparr>date = Some 86400000, sgv = Some 110\<rparr>, \<lparr>date = Some 86700000, sgv = Some 120\<rparr>] \<and>
   last (main stable_sort
     [\<lparr>date = Some 0, sgv = Some 90\<rparr>, \<lparr>date = Some 300000, sgv = Some 100\<rparr>,
      \<lparr>date = Some 86400000, sgv = Some 110\<rparr>, \<lparr>date = Some 86700000, sgv = Some 120\<rparr>]) =
     Statistics (Some 90) (Some 120) (Some 105) (Some (sqrt (500 / 3))) \<and>
   fmt2 105 = 10500 \<and> fmt2 (sqrt (500 / 3)) = 1291"
proof -
  let ?E = "[\<lparr>date = Some 0, sgv = Some 90\<rparr>, \<lparr>date = Some 300000, sgv = Some 100\<rparr>,
      \<lparr>date = Some 86400000, sgv = Some 110\<rparr>, \<lparr>date = Some 86700000, sgv = Some 120\<rparr>]"
  have v: "list_ex (\<lambda>e. sgv e \<noteq> None) ?E" by simp
  obtain df where p: "prepare stable_sort ?E = Inr df"
    by (simp add: prepare_Inr in_bounds_def)
  from summary_statistics [OF sorts_stable_sort p v] sorts_stable_sort v show ?thesis
    by simp
qed

text \<open>
  C8. A response with zero entries is not an error path: whatever the sorting function,
  the only thing shown is the warning that no glucose entries were found; no chart, no
  chart heading, no statistics and no error message are produced.
\<close>

theorem empty_response_no_data:
  "main srt [] = [Warning ''No glucose entries found for the selected date range.''] \<and>
   filter is_plot (main srt []) = [] \<and>
   filter is_subheader (main srt []) = [] \<and>
   filter is_statistics (main srt []) = [] \<and>
   filter is_error (main srt []) = []"
  by (simp add: main_def)

theorem empty_response_no_data_witness:
  "main (\<lambda>rs. rs) [] = [Warning ''No glucose entries found for the selected date range.'']"
  using empty_response_no_data [of "\<lambda>rs. rs"] by simp

text \<open>
  C10. For a day's group that has the glucose column the loop body completes, and the
  smoothed second derivative that it stores and plots is undefined at every index below
  8; a day with fewer than 9 readings has an entirely undefined smoothed second derivative.
\<close>

theorem second_derivative_smoothed_undefined_below_8:
  assumes "''sgv'' \<in> set (columns g)"
  shows "\<exists>evs g2 s2. day_body d g = (evs, Inr g2) \<and> sgv_diff2_smooth g2 = Some s2 \<and>
           Plot SecondDerivative d (map dateTime (rows g)) s2 \<in> set evs \<and>
           length s2 = length (rows g) \<and>
           (\<forall>i < length (rows g). i < 8 \<longrightarrow> s2 ! i = None) \<and>
           (length (rows g) < 9 \<longrightarrow> s2 = replicate (length (rows g)) None)"
proof -
  define s2 where "s2 = rolling_mean 4 (diff (rolling_mean 4 (diff (map sgv_value (rows g)))))"
  have len: "length s2 = length (rows g)"
    by (simp add: s2_def length_diff length_rolling_mean)
  have undef: "s2 ! i = None" if "i < length (rows g)" "i < 8" for i
    using that smooth2_undefined[of i "map sgv_value (rows g)"] by (simp add: s2_def)
  have all: "s2 = replicate (length (rows g)) None" if "length (rows g) < 9"
  proof (rule nth_equalityI)
    show "length s2 = length (replicate (length (rows g)) None)" using len by simp
  next
    fix i assume "i < length s2"
    with len that have "i < length (rows g)" "i < 8" by simp_all
    then show "s2 ! i = replicate (length (rows g)) None ! i" using undef by simp
  qed
  from day_body_eq[OF assms, of d] len undef all show ?thesis
    unfolding s2_def[symmetric] by auto
qed


theorem second_derivative_smoothed_undefined_below_8_witness:
  "''sgv'' \<in> set (columns (day_of [100, 105, 95, 110, 108, 120, 115, 118])) \<and>
   (\<exists>evs g2. day_body 0 (day_of [100, 105, 95, 110, 108, 120, 115, 118]) = (evs, Inr g2) \<and>
      sgv_diff2_smooth g2 = Some (replicate 8 None) \<and>
      Plot SecondDerivative 0 [Some 0, Some 300000, Some 600000, Some 900000, Some 1200000,
         Some 1500000, Some 1800000, Some 2100000] (replicate 8 None) \<in> set evs)"
proof -
  let ?g = "day_of [100, 105, 95, 110, 108, 120, 115, 118]"
  have c: "''sgv'' \<in> set (columns ?g)"
    by (simp add: day_of_def)
  have n: "length (rows ?g) = 8"
    by (simp add: day_of_def)
  have t: "map dateTime (rows ?g) = [Some 0, Some 300000, Some 600000, Some 900000, Some 1200000,
         Some 1500000, Some 1800000, Some 2100000]"
    by (simp add: day_of_def)
  from second_derivative_smoothed_undefined_below_8 [OF c, of 0] c show ?thesis
    unfolding n t by auto
qed

end
